theory Spec2Isabelle
  imports Complex_Main "HOL-Library.Multiset"
begin

section \<open>Core models\<close>

text \<open>
  The enumeration \<open>DebtSeverity\<close> and the two dataclasses \<open>CodeSmell\<close> and
  \<open>DebtMetric\<close> of \<^verbatim>\<open>code_debt_detective.py\<close>. Python strings are modelled as
  \<^typ>\<open>string\<close>, one \<^typ>\<open>char\<close> per code point (code points below 256). The float
  fields only ever hold the decimal literals of the source, the quotient of two list
  lengths, or an integer count; they are modelled by their exact rational values.
\<close>

datatype DebtSeverity = LOW | MEDIUM | HIGH | CRITICAL

record CodeSmell =
  file_path :: string
  line_number :: nat
  smell_type :: string
  description :: string
  severity :: DebtSeverity
  suggested_fix :: string
  confidence_score :: rat

record DebtMetric =
  metric_name :: string
  current_value :: rat
  trend :: string
  risk_level :: DebtSeverity
  impact_description :: string


section \<open>Health score\<close>

text \<open>
  \<^verbatim>\<open>CodeDebtDetective._calculate_health_score\<close>: the early return on an empty list,
  the loop adding one penalty per smell (an \<open>if\<close>/\<open>elif\<close> chain on the severity), and
  the final clamp.
\<close>

definition add_penalty :: "int \<Rightarrow> CodeSmell \<Rightarrow> int" where
  "add_penalty penalty smell =
     (if severity smell = CRITICAL then penalty + 10
      else if severity smell = HIGH then penalty + 5
      else if severity smell = MEDIUM then penalty + 2
      else penalty + 1)"

definition calculate_health_score :: "CodeSmell list \<Rightarrow> int" where
  "calculate_health_score smells =
     (if smells = [] then 100
      else max 0 (100 - foldl add_penalty 0 smells))"

text \<open>
  The health score block of \<^verbatim>\<open>display_console_report\<close>: a dictionary from severity to
  count (every severity is a key, initially 0), filled by one pass over the smells, and a
  weighted sum of the four counts.
\<close>

definition count_severity :: "(DebtSeverity \<Rightarrow> nat) \<Rightarrow> CodeSmell \<Rightarrow> (DebtSeverity \<Rightarrow> nat)" where
  "count_severity severity_counts smell =
     severity_counts (severity smell := severity_counts (severity smell) + 1)"

definition severity_counts_of :: "CodeSmell list \<Rightarrow> (DebtSeverity \<Rightarrow> nat)" where
  "severity_counts_of smells = foldl count_severity (\<lambda>s. 0) smells"

definition console_health_score :: "CodeSmell list \<Rightarrow> int" where
  "console_health_score smells =
     (let total_issues = length smells;
          severity_counts = severity_counts_of smells
      in if total_issues = 0 then 100
         else max 0 (100 - (int (severity_counts CRITICAL) * 10 +
                            int (severity_counts HIGH) * 5 +
                            int (severity_counts MEDIUM) * 2 +
                            int (severity_counts LOW) * 1)))"

text \<open>
  The score as the specification words it: a function of the multiset of severities,
  \<open>max(0, 100 - \<Sum> penalty(severity))\<close> with the penalty table 10, 5, 2, 1.
\<close>

fun penalty :: "DebtSeverity \<Rightarrow> int" where
  "penalty CRITICAL = 10"
| "penalty HIGH = 5"
| "penalty MEDIUM = 2"
| "penalty LOW = 1"

definition score :: "DebtSeverity multiset \<Rightarrow> int" where
  "score F = max 0 (100 - sum_mset (image_mset penalty F))"

definition severities :: "CodeSmell list \<Rightarrow> DebtSeverity multiset" where
  "severities smells = mset (map severity smells)"


section \<open>String operations of the Python runtime\<close>

text \<open>
  The built-in string operations the analyzers call: \<open>str(n)\<close> of a non-negative
  integer, \<open>s.split(sep)\<close> for a one-character separator, \<open>s.strip()\<close>,
  \<open>s.lower()\<close>, the substring test \<open>sub in s\<close>, and the search of a literal
  under \<open>re.IGNORECASE\<close>.
\<close>

definition digit_char :: "nat \<Rightarrow> char" where
  "digit_char d = ''0123456789'' ! d"

fun str_nat :: "nat \<Rightarrow> string" where
  "str_nat n = (if n < 10 then [digit_char n] else str_nat (n div 10) @ [digit_char (n mod 10)])"

declare str_nat.simps [simp del]

text \<open>
  \<open>s.split(sep)\<close> scans the string once; \<open>cur\<close> is the piece being read. The result
  is never empty: the empty string splits into one empty piece.
\<close>

fun split_from :: "char \<Rightarrow> string \<Rightarrow> string \<Rightarrow> string list" where
  "split_from sep cur [] = [cur]"
| "split_from sep cur (c # cs) =
     (if c = sep then cur # split_from sep [] cs else split_from sep (cur @ [c]) cs)"

definition str_split :: "string \<Rightarrow> char \<Rightarrow> string list" where
  "str_split s sep = split_from sep [] s"

definition newline :: char where
  "newline = CHR 0x0A"

text \<open>
  Whitespace as \<open>str.isspace\<close> sees it below code point 256: tab to carriage return,
  the four separators 28 to 31, the space, NEL (133) and the no-break space (160).
\<close>

definition isspace :: "char \<Rightarrow> bool" where
  "isspace c = (let n = (of_char c :: nat) in
     (9 \<le> n \<and> n \<le> 13) \<or> (28 \<le> n \<and> n \<le> 32) \<or> n = 133 \<or> n = 160)"

definition strip :: "string \<Rightarrow> string" where
  "strip s = rev (dropWhile isspace (rev (dropWhile isspace s)))"

text \<open>
  Lower-casing below code point 256: the letters A to Z and the accented capitals 192 to
  222 (but not the multiplication sign 215) move up by 32, which sets bit 5 of the code
  point; every other character stays.
\<close>

definition lower_char :: "char \<Rightarrow> char" where
  "lower_char c = (let n = (of_char c :: nat) in
     if (65 \<le> n \<and> n \<le> 90) \<or> (192 \<le> n \<and> n \<le> 222 \<and> n \<noteq> 215)
     then (case c of Char b0 b1 b2 b3 b4 b5 b6 b7 \<Rightarrow> Char b0 b1 b2 b3 b4 True b6 b7)
     else c)"

definition lower :: "string \<Rightarrow> string" where
  "lower s = map lower_char s"

fun startswith :: "string \<Rightarrow> string \<Rightarrow> bool" where
  "startswith s [] = True"
| "startswith [] (p # ps) = False"
| "startswith (c # cs) (p # ps) = (c = p \<and> startswith cs ps)"

fun contains :: "string \<Rightarrow> string \<Rightarrow> bool" where
  "contains [] sub = (sub = [])"
| "contains (c # cs) sub = (startswith (c # cs) sub \<or> contains cs sub)"

text \<open>
  A literal under \<open>re.IGNORECASE\<close> matches at a position when the characters agree
  after lower-casing; \<open>re.search\<close> tries every position.
\<close>

fun match_ignorecase :: "string \<Rightarrow> string \<Rightarrow> bool" where
  "match_ignorecase [] s = True"
| "match_ignorecase (p # ps) [] = False"
| "match_ignorecase (p # ps) (c # cs) = (lower_char c = lower_char p \<and> match_ignorecase ps cs)"

fun search_ignorecase :: "string \<Rightarrow> string \<Rightarrow> bool" where
  "search_ignorecase pat [] = match_ignorecase pat []"
| "search_ignorecase pat (c # cs) = (match_ignorecase pat (c # cs) \<or> search_ignorecase pat cs)"


section \<open>Textual analyzer\<close>

text \<open>
  A \<open>pathlib.Path\<close> is used through \<open>str(file_path)\<close> and \<open>file_path.suffix\<close> only.
\<close>

record Path =
  path_str :: string
  suffix :: string

text \<open>
  \<^verbatim>\<open>CodeAnalyzer._analyze_general_patterns\<close>. The list \<open>smells\<close> is threaded through
  the size check and the two loops over \<open>enumerate(lines, 1)\<close>; each loop body appends
  at most one smell.
\<close>

definition debt_marker_search :: "string \<Rightarrow> bool" where
  "debt_marker_search line =
     (search_ignorecase ''TODO'' line \<or> search_ignorecase ''FIXME'' line \<or>
      search_ignorecase ''HACK'' line \<or> search_ignorecase ''XXX'' line)"

definition large_file_smell :: "Path \<Rightarrow> string list \<Rightarrow> CodeSmell" where
  "large_file_smell path lines =
     \<lparr>file_path = path_str path,
      line_number = 1,
      smell_type = ''large_file'',
      description = ''File has '' @ str_nat (length lines) @ '' lines (>500)'',
      severity = MEDIUM,
      suggested_fix = ''Consider splitting into multiple files'',
      confidence_score = 0.8\<rparr>"

definition debt_comment_smell :: "Path \<Rightarrow> nat \<Rightarrow> string \<Rightarrow> CodeSmell" where
  "debt_comment_smell path i line =
     \<lparr>file_path = path_str path,
      line_number = i,
      smell_type = ''technical_debt_comment'',
      description = ''Technical debt marker: '' @ strip line,
      severity = LOW,
      suggested_fix = ''Address the noted issue'',
      confidence_score = 0.6\<rparr>"

definition long_line_smell :: "Path \<Rightarrow> nat \<Rightarrow> string \<Rightarrow> CodeSmell" where
  "long_line_smell path i line =
     \<lparr>file_path = path_str path,
      line_number = i,
      smell_type = ''long_line'',
      description = ''Line length: '' @ str_nat (length line) @ '' characters (>120)'',
      severity = LOW,
      suggested_fix = ''Break line or refactor for readability'',
      confidence_score = 0.9\<rparr>"

definition debt_comment_step :: "Path \<Rightarrow> CodeSmell list \<Rightarrow> nat \<times> string \<Rightarrow> CodeSmell list" where
  "debt_comment_step path smells il =
     (case il of (i, line) \<Rightarrow>
        if debt_marker_search line then smells @ [debt_comment_smell path i line]
        else smells)"

definition long_line_step :: "Path \<Rightarrow> CodeSmell list \<Rightarrow> nat \<times> string \<Rightarrow> CodeSmell list" where
  "long_line_step path smells il =
     (case il of (i, line) \<Rightarrow>
        if length line > 120 then smells @ [long_line_smell path i line]
        else smells)"

definition analyze_general_patterns :: "Path \<Rightarrow> string \<Rightarrow> CodeSmell list" where
  "analyze_general_patterns path content =
     (let lines = str_split content newline;
          smells0 = [];
          smells1 = (if length lines > 500 then smells0 @ [large_file_smell path lines]
                     else smells0);
          smells2 = foldl (debt_comment_step path) smells1 (enumerate 1 lines);
          smells3 = foldl (long_line_step path) smells2 (enumerate 1 lines)
      in smells3)"


section \<open>Structural analyzer\<close>

text \<open>
  The syntax tree that \<open>ast.parse\<close> returns, as far as the analyzer looks at it. The
  classes the analyzer tests for have a constructor each, with their line number, the
  attributes the analyzer reads (\<open>name\<close>, \<open>args.args\<close>, \<open>body\<close>) and their child
  nodes in the order of the class's fields:
  \<^item> \<open>FunctionDef lineno name posonlyargs args rest body tail\<close>, where \<open>posonlyargs\<close>,
    \<open>args\<close> and \<open>rest\<close> are the children of the \<open>arguments\<close> node (\<open>args\<close> is
    \<open>node.args.args\<close>) and \<open>tail\<close> holds the decorators and the return annotation;
  \<^item> \<open>AsyncFunctionDef\<close>, the class of an \<open>async def\<close>, with the same fields; it is
    not a subclass of \<open>FunctionDef\<close>, so no \<open>isinstance\<close> test of the analyzer holds
    of it;
  \<^item> \<open>IfNode lineno test body orelse\<close> for \<open>ast.If\<close>, and \<open>While\<close> alike;
  \<^item> \<open>For lineno target iter body orelse\<close>;
  \<^item> \<open>With lineno items body\<close>;
  \<^item> \<open>Try lineno body handlers orelse finalbody\<close>.
  Every other class (\<open>Module\<close>, \<open>ClassDef\<close>, \<open>ExceptHandler\<close>, \<open>arguments\<close>,
  \<open>AsyncFor\<close>, \<open>AsyncWith\<close>, \<open>TryStar\<close>, expressions, simple statements, ...) is an
  \<open>Other\<close> node with its child nodes.
\<close>

datatype node =
    is_FunctionDef: FunctionDef (lineno: nat) (name: string) "node list" (args: "node list")
      "node list" (body: "node list") "node list"
  | is_AsyncFunctionDef: AsyncFunctionDef (lineno: nat) (name: string) "node list"
      (args: "node list") "node list" (body: "node list") "node list"
  | is_If: IfNode (lineno: nat) node (body: "node list") "node list"
  | is_For: For (lineno: nat) node node (body: "node list") "node list"
  | is_While: While (lineno: nat) node (body: "node list") "node list"
  | is_With: With (lineno: nat) "node list" (body: "node list")
  | is_Try: Try (lineno: nat) (body: "node list") "node list" "node list" "node list"
  | Other "node list"

text \<open>\<open>ast.iter_child_nodes\<close>: the child nodes, field by field.\<close>

fun iter_child_nodes :: "node \<Rightarrow> node list" where
  "iter_child_nodes (FunctionDef l nm posonly as rest b tail) = Other (posonly @ as @ rest) # b @ tail"
| "iter_child_nodes (AsyncFunctionDef l nm posonly as rest b tail) =
     Other (posonly @ as @ rest) # b @ tail"
| "iter_child_nodes (IfNode l test b orelse) = test # b @ orelse"
| "iter_child_nodes (For l target iter b orelse) = target # iter # b @ orelse"
| "iter_child_nodes (While l test b orelse) = test # b @ orelse"
| "iter_child_nodes (With l items b) = items @ b"
| "iter_child_nodes (Try l b handlers orelse finalbody) = b @ handlers @ orelse @ finalbody"
| "iter_child_nodes (Other children) = children"

text \<open>
  The number of nodes of a tree (a function definition counts its \<open>arguments\<close> node too);
  it decreases from a node to its children, which is why the traversals below terminate.
\<close>

fun node_count :: "node \<Rightarrow> nat" where
  "node_count (FunctionDef l nm posonly as rest b tail) =
     2 + sum_list (map node_count posonly) + sum_list (map node_count as) +
     sum_list (map node_count rest) + sum_list (map node_count b) + sum_list (map node_count tail)"
| "node_count (AsyncFunctionDef l nm posonly as rest b tail) =
     2 + sum_list (map node_count posonly) + sum_list (map node_count as) +
     sum_list (map node_count rest) + sum_list (map node_count b) + sum_list (map node_count tail)"
| "node_count (IfNode l test b orelse) =
     1 + node_count test + sum_list (map node_count b) + sum_list (map node_count orelse)"
| "node_count (For l target iter b orelse) =
     1 + node_count target + node_count iter + sum_list (map node_count b) +
     sum_list (map node_count orelse)"
| "node_count (While l test b orelse) =
     1 + node_count test + sum_list (map node_count b) + sum_list (map node_count orelse)"
| "node_count (With l items b) = 1 + sum_list (map node_count items) + sum_list (map node_count b)"
| "node_count (Try l b handlers orelse finalbody) =
     1 + sum_list (map node_count b) + sum_list (map node_count handlers) +
     sum_list (map node_count orelse) + sum_list (map node_count finalbody)"
| "node_count (Other children) = 1 + sum_list (map node_count children)"

lemma node_count_children:
  "sum_list (map node_count (iter_child_nodes n)) < node_count n"
  by (cases n) simp_all

lemma node_count_pos: "0 < node_count n"
  by (cases n) simp_all

lemma node_count_children_double:
  "Suc (2 * sum_list (map node_count (iter_child_nodes n))) < 2 * node_count n"
  using node_count_children [of n] by arith

text \<open>
  \<open>ast.walk\<close>: a queue of nodes to visit, starting with the root; the first node is
  taken off, its children are added at the end, and the node is yielded.
\<close>

function walk_queue :: "node list \<Rightarrow> node list" where
  "walk_queue [] = []"
| "walk_queue (n # todo) = n # walk_queue (todo @ iter_child_nodes n)"
  by pat_completeness auto
termination
  by (relation "measure (\<lambda>todo. sum_list (map node_count todo))")
     (simp_all add: node_count_children)

definition walk :: "node \<Rightarrow> node list" where
  "walk tree = walk_queue [tree]"

text \<open>
  \<^verbatim>\<open>CodeAnalyzer._calculate_nesting_depth\<close>. \<open>nesting_depth_loop\<close> is the \<open>for\<close> loop
  over the child nodes with the running \<open>max_depth\<close>; only a child that is an
  \<open>If\<close>, \<open>For\<close>, \<open>While\<close>, \<open>With\<close> or \<open>Try\<close> is entered.
\<close>

definition is_nesting :: "node \<Rightarrow> bool" where
  "is_nesting child = (is_If child \<or> is_For child \<or> is_While child \<or> is_With child \<or> is_Try child)"

function calculate_nesting_depth :: "node \<Rightarrow> nat \<Rightarrow> nat"
  and nesting_depth_loop :: "node list \<Rightarrow> nat \<Rightarrow> nat \<Rightarrow> nat" where
  "calculate_nesting_depth n current_depth =
     nesting_depth_loop (iter_child_nodes n) current_depth current_depth"
| "nesting_depth_loop [] current_depth max_depth = max_depth"
| "nesting_depth_loop (child # rest) current_depth max_depth =
     nesting_depth_loop rest current_depth
       (if is_nesting child
        then max max_depth (calculate_nesting_depth child (current_depth + 1))
        else max_depth)"
  by pat_completeness auto
termination
  by (relation "measure (\<lambda>x. case x of
          Inl (n, d) \<Rightarrow> 2 * node_count n
        | Inr (cs, d, m) \<Rightarrow> 2 * sum_list (map node_count cs) + 1)")
     (simp_all add: node_count_children_double node_count_pos)

text \<open>
  The three checks of the loop body of \<^verbatim>\<open>CodeAnalyzer._analyze_python_file\<close>, run on one
  node of the walk, and the smells they append.
\<close>

definition long_function_smell :: "Path \<Rightarrow> node \<Rightarrow> CodeSmell" where
  "long_function_smell path n =
     \<lparr>file_path = path_str path,
      line_number = lineno n,
      smell_type = ''long_function'',
      description = ''Function '' @ [CHR 0x27] @ name n @ [CHR 0x27] @ '' has '' @
                    str_nat (length (body n)) @ '' lines (>20)'',
      severity = MEDIUM,
      suggested_fix = ''Consider breaking into smaller functions'',
      confidence_score = 0.8\<rparr>"

definition too_many_parameters_smell :: "Path \<Rightarrow> node \<Rightarrow> nat \<Rightarrow> CodeSmell" where
  "too_many_parameters_smell path n param_count =
     \<lparr>file_path = path_str path,
      line_number = lineno n,
      smell_type = ''too_many_parameters'',
      description = ''Function '' @ [CHR 0x27] @ name n @ [CHR 0x27] @ '' has '' @
                    str_nat param_count @ '' parameters (>5)'',
      severity = HIGH,
      suggested_fix = ''Use dataclasses or configuration objects'',
      confidence_score = 0.9\<rparr>"

definition deep_nesting_smell :: "Path \<Rightarrow> node \<Rightarrow> nat \<Rightarrow> CodeSmell" where
  "deep_nesting_smell path n depth =
     \<lparr>file_path = path_str path,
      line_number = lineno n,
      smell_type = ''deep_nesting'',
      description = ''Code block nested '' @ str_nat depth @ '' levels deep'',
      severity = HIGH,
      suggested_fix = ''Extract methods or use early returns'',
      confidence_score = 0.7\<rparr>"

definition syntax_error_smell :: "Path \<Rightarrow> CodeSmell" where
  "syntax_error_smell path =
     \<lparr>file_path = path_str path,
      line_number = 1,
      smell_type = ''syntax_error'',
      description = ''File contains syntax errors'',
      severity = CRITICAL,
      suggested_fix = ''Fix syntax errors before proceeding'',
      confidence_score = 1.0\<rparr>"

definition visit :: "Path \<Rightarrow> CodeSmell list \<Rightarrow> node \<Rightarrow> CodeSmell list" where
  "visit path smells n =
     (let smells1 =
            (if is_FunctionDef n then
               (if length (body n) > 20 then smells @ [long_function_smell path n] else smells)
             else smells);
          smells2 =
            (if is_FunctionDef n then
               (let param_count = length (args n)
                in if param_count > 5 then smells1 @ [too_many_parameters_smell path n param_count]
                   else smells1)
             else smells1);
          smells3 =
            (if is_If n \<or> is_For n \<or> is_While n then
               (let depth = calculate_nesting_depth n 0
                in if depth > 3 then smells2 @ [deep_nesting_smell path n depth] else smells2)
             else smells2)
      in smells3)"

text \<open>
  \<open>ast.parse\<close> is a parameter of the model: on a file content it returns a tree, raises
  \<open>SyntaxError\<close>, or raises some other exception. \<open>_analyze_python_file\<close> catches
  \<open>SyntaxError\<close> only; the result \<open>None\<close> stands for an exception that escapes it.
\<close>

datatype parse_result = Parsed node | RaisesSyntaxError | RaisesOther

definition analyze_python_file ::
    "(string \<Rightarrow> parse_result) \<Rightarrow> Path \<Rightarrow> string \<Rightarrow> CodeSmell list option" where
  "analyze_python_file ast_parse path content =
     (case ast_parse content of
        Parsed tree \<Rightarrow> Some (foldl (visit path) [] (walk tree))
      | RaisesSyntaxError \<Rightarrow> Some ([] @ [syntax_error_smell path])
      | RaisesOther \<Rightarrow> None)"


section \<open>Per-file analysis\<close>

text \<open>
  \<^verbatim>\<open>CodeAnalyzer._analyze_file\<close>. The argument \<open>read\<close> is the outcome of opening and
  reading the file: its content, or \<open>None\<close> when that raised. Any exception inside the
  \<open>try\<close> block is caught and the file yields no smells at all.
\<close>

definition analyze_file ::
    "(string \<Rightarrow> parse_result) \<Rightarrow> Path \<Rightarrow> string option \<Rightarrow> CodeSmell list" where
  "analyze_file ast_parse path read =
     (case read of
        None \<Rightarrow> []
      | Some content \<Rightarrow>
          (case (if suffix path = ''.py'' then analyze_python_file ast_parse path content
                 else Some []) of
             None \<Rightarrow> []
           | Some python_smells \<Rightarrow>
               ([] @ python_smells) @ analyze_general_patterns path content))"


section \<open>History trend analyzer\<close>

text \<open>
  \<^verbatim>\<open>GitAnalyzer._analyze_commit_frequency\<close> and \<^verbatim>\<open>GitAnalyzer._count_debt_commits\<close>
  work on the lines of the \<open>git log\<close> output. \<open>add_date\<close> and \<open>count_debt_step\<close> are
  the bodies of their loops. The quotient of the two lengths and the product
  \<open>len(commits) * 0.2\<close> are taken exactly.
\<close>

definition add_date :: "string set \<Rightarrow> string \<Rightarrow> string set" where
  "add_date dates commit =
     (if CHR ''|'' \<in> set commit then
        (let parts = str_split commit (CHR ''|'')
         in if length parts \<ge> 3 then insert (parts ! 2) dates else dates)
      else dates)"

definition analyze_commit_frequency :: "string list \<Rightarrow> rat" where
  "analyze_commit_frequency commits =
     (if commits = [] then 0
      else (let dates = foldl add_date {} commits
            in of_nat (length commits) / of_nat (max (card dates) 1)))"

definition debt_keywords :: "string list" where
  "debt_keywords = [''fix'', ''refactor'', ''cleanup'', ''debt'', ''hack'', ''workaround'', ''temp'']"

definition count_debt_step :: "nat \<Rightarrow> string \<Rightarrow> nat" where
  "count_debt_step n commit =
     (if CHR ''|'' \<in> set commit then
        (let message = lower (last (str_split commit (CHR ''|'')))
         in if list_ex (\<lambda>keyword. contains message keyword) debt_keywords then n + 1
            else n)
      else n)"

definition count_debt_commits :: "string list \<Rightarrow> nat" where
  "count_debt_commits commits = foldl count_debt_step 0 commits"

definition commit_metrics :: "string list \<Rightarrow> DebtMetric list" where
  "commit_metrics commits =
     (let metrics0 = [];
          commit_frequency = analyze_commit_frequency commits;
          metrics1 =
            (if commit_frequency > 10 then
               metrics0 @ [\<lparr>metric_name = ''High Commit Frequency'',
                             current_value = commit_frequency,
                             trend = ''increasing'',
                             risk_level = MEDIUM,
                             impact_description = ''Rapid commits may indicate rushed development''\<rparr>]
             else metrics0);
          debt_commits = count_debt_commits commits;
          metrics2 =
            (if of_nat debt_commits > of_nat (length commits) * (0.2 :: rat) then
               metrics1 @ [\<lparr>metric_name = ''Technical Debt Commits'',
                             current_value = of_nat debt_commits,
                             trend = ''concerning'',
                             risk_level = HIGH,
                             impact_description =
                               ''High ratio of fix/refactor commits suggests accumulating debt''\<rparr>]
             else metrics1)
      in metrics2)"

text \<open>
  \<^verbatim>\<open>GitAnalyzer.get_debt_trends\<close>. \<open>commit_metrics\<close> above is its analysis of the
  commit lines. What the method reads from outside is passed in: whether the
  \<open>.git\<close> directory exists, and the outcome of running \<open>git log\<close> (an exception, or a
  return code and the standard output).
\<close>

datatype git_log = GitRaised | GitCompleted int string

definition get_debt_trends :: "bool \<Rightarrow> git_log \<Rightarrow> DebtMetric list" where
  "get_debt_trends is_repository run =
     (if \<not> is_repository then []
      else (case run of
              GitRaised \<Rightarrow> []
            | GitCompleted returncode stdout \<Rightarrow>
                if returncode \<noteq> 0 then []
                else if strip stdout = [] then []
                else commit_metrics (str_split (strip stdout) newline)))"

text \<open>
  A commit as \<open>git log\<close> reports it, and its line under the format
  \<^verbatim>\<open>%H|%an|%ad|%s\<close> that \<open>get_debt_trends\<close> asks for. A debt commit, in the words of the
  specification, is one whose message contains one of the keywords, ignoring case.
\<close>

record commit_record =
  commit_id :: string
  author :: string
  date :: string
  message :: string

definition log_line :: "commit_record \<Rightarrow> string" where
  "log_line c = commit_id c @ ''|'' @ author c @ ''|'' @ date c @ ''|'' @ message c"

definition is_debt_message :: "string \<Rightarrow> bool" where
  "is_debt_message m = list_ex (\<lambda>keyword. contains (lower m) keyword) debt_keywords"

text \<open>
  A commit whose fields do not contain the separator of the log format.
\<close>

definition well_formed :: "commit_record \<Rightarrow> bool" where
  "well_formed c =
     (CHR ''|'' \<notin> set (commit_id c) \<and> CHR ''|'' \<notin> set (author c) \<and>
      CHR ''|'' \<notin> set (date c) \<and> CHR ''|'' \<notin> set (message c))"


section \<open>Nesting depth as the specification words it\<close>

text \<open>
  The depth below a node, counting every nested \<open>if\<close>/\<open>for\<close>/\<open>while\<close>/\<open>with\<close>/\<open>try\<close>
  descendant: the node itself is depth 0, a qualifying descendant adds 1 wherever it sits
  below the node, and the maximum is taken across branches.
\<close>

function spec_nesting_depth :: "node \<Rightarrow> nat"
  and spec_depth_loop :: "node list \<Rightarrow> nat \<Rightarrow> nat" where
  "spec_nesting_depth n = spec_depth_loop (iter_child_nodes n) 0"
| "spec_depth_loop [] max_depth = max_depth"
| "spec_depth_loop (child # rest) max_depth =
     spec_depth_loop rest
       (max max_depth (if is_nesting child then 1 + spec_nesting_depth child
                       else spec_nesting_depth child))"
  by pat_completeness auto
termination
  by (relation "measure (\<lambda>x. case x of
          Inl n \<Rightarrow> 2 * node_count n
        | Inr (cs, m) \<Rightarrow> 2 * sum_list (map node_count cs) + 1)")
     (simp_all add: node_count_children_double node_count_pos)


section \<open>Notions the properties are stated with\<close>

text \<open>
  The nodes of a tree: the top node, and every child node of a node of the tree.
\<close>

inductive subnode :: "node \<Rightarrow> node \<Rightarrow> bool" for top :: node where
  subnode_root: "subnode top top"
| subnode_child: "subnode top n \<Longrightarrow> c \<in> set (iter_child_nodes n) \<Longrightarrow> subnode top c"

code_pred subnode .

text \<open>
  A chain of length \<open>k\<close> below a node: \<open>k\<close> nodes, each an \<open>if\<close>, \<open>for\<close>,
  \<open>while\<close>, \<open>with\<close> or \<open>try\<close> and each a direct child node of the one before,
  the first a direct child of the node.
\<close>

inductive nest_chain :: "node \<Rightarrow> nat \<Rightarrow> bool" where
  chain_end: "nest_chain n 0"
| chain_step: "c \<in> set (iter_child_nodes n) \<Longrightarrow> is_nesting c \<Longrightarrow> nest_chain c k
     \<Longrightarrow> nest_chain n (Suc k)"

code_pred nest_chain .




text \<open>
  The kinds of findings of the two analyzers, and the severity and confidence the
  specification fixes for each kind.
\<close>

definition structural_kinds :: "string list" where
  "structural_kinds = [''long_function'', ''too_many_parameters'', ''deep_nesting'', ''syntax_error'']"

definition textual_kinds :: "string list" where
  "textual_kinds = [''large_file'', ''technical_debt_comment'', ''long_line'']"

definition kind_policy :: "string \<Rightarrow> (DebtSeverity \<times> rat) option" where
  "kind_policy kind =
     map_of [(''long_function'', (MEDIUM, 0.8)),
             (''too_many_parameters'', (HIGH, 0.9)),
             (''deep_nesting'', (HIGH, 0.7)),
             (''large_file'', (MEDIUM, 0.8)),
             (''technical_debt_comment'', (LOW, 0.6)),
             (''long_line'', (LOW, 0.9)),
             (''syntax_error'', (CRITICAL, 1.0))] kind"


section \<open>Properties of the health score\<close>

lemma add_penalty_eq: "add_penalty p s = p + penalty (severity s)"
  by (cases "severity s") (simp_all add: add_penalty_def)

lemma foldl_add_penalty:
  "foldl add_penalty p smells = p + sum_list (map (penalty \<circ> severity) smells)"
  by (induction smells arbitrary: p) (simp_all add: add_penalty_eq)

lemma penalty_pos: "0 < penalty s"
  by (cases s) simp_all

lemma sum_penalty_nonneg: "0 \<le> sum_list (map (penalty \<circ> severity) smells)"
  by (induction smells) (simp_all add: less_imp_le [OF penalty_pos])

lemma sum_mset_severities:
  "sum_mset (image_mset penalty (severities smells)) = sum_list (map (penalty \<circ> severity) smells)"
  by (induction smells) (simp_all add: severities_def)

lemma calculate_health_score_eq:
  "calculate_health_score smells = max 0 (100 - sum_list (map (penalty \<circ> severity) smells))"
  by (simp add: calculate_health_score_def foldl_add_penalty)

lemma foldl_count_severity:
  "foldl count_severity m smells sev = m sev + length (filter (\<lambda>s. severity s = sev) smells)"
  by (induction smells arbitrary: m) (simp_all add: count_severity_def)

lemma weighted_counts:
  "sum_list (map (penalty \<circ> severity) smells) =
     int (length (filter (\<lambda>s. severity s = CRITICAL) smells)) * 10 +
     int (length (filter (\<lambda>s. severity s = HIGH) smells)) * 5 +
     int (length (filter (\<lambda>s. severity s = MEDIUM) smells)) * 2 +
     int (length (filter (\<lambda>s. severity s = LOW) smells)) * 1"
proof (induction smells)
  case Nil
  show ?case by simp
next
  case (Cons s smells)
  then show ?case by (cases "severity s") simp_all
qed

lemma console_health_score_eq:
  "console_health_score smells = max 0 (100 - sum_list (map (penalty \<circ> severity) smells))"
proof (cases "smells = []")
  case True
  then show ?thesis by (simp add: console_health_score_def)
next
  case False
  then show ?thesis
    unfolding console_health_score_def Let_def severity_counts_of_def
    by (simp add: foldl_count_severity weighted_counts)
qed

text \<open>
  Claim C1. The health score of a collection of findings is
  \<open>max(0, 100 - sum of penalties)\<close> over the multiset of their severities, with penalty
  10 for critical, 5 for high, 2 for medium and 1 for low; the empty collection scores
  100; every score lies between 0 and 100. Both the scorer and the console report
  compute this value.
\<close>

theorem health_score_formula:
  "calculate_health_score smells = score (severities smells)
   \<and> console_health_score smells = score (severities smells)
   \<and> penalty CRITICAL = 10 \<and> penalty HIGH = 5 \<and> penalty MEDIUM = 2 \<and> penalty LOW = 1
   \<and> calculate_health_score [] = 100
   \<and> score {#} = 100
   \<and> 0 \<le> calculate_health_score smells \<and> calculate_health_score smells \<le> 100"
proof -
  have a: "calculate_health_score smells = score (severities smells)"
    by (simp add: calculate_health_score_eq score_def sum_mset_severities)
  have b: "console_health_score smells = score (severities smells)"
    by (simp add: console_health_score_eq score_def sum_mset_severities)
  have c: "calculate_health_score smells \<le> 100"
    using sum_penalty_nonneg [of smells] by (simp add: calculate_health_score_eq)
  have d: "0 \<le> calculate_health_score smells"
    by (simp add: calculate_health_score_eq)
  show ?thesis
    using a b c d by (simp add: calculate_health_score_def score_def)
qed

text \<open>
  Claim C8. Adding a finding never increases the score, and the score does not depend
  on the order in which the findings are supplied: two lists with the same multiset of
  severities have the same score.
\<close>

theorem health_score_monotone_order_invariant:
  "calculate_health_score (f # F) \<le> calculate_health_score F
   \<and> calculate_health_score (F @ [f]) \<le> calculate_health_score F
   \<and> (severities F = severities G \<longrightarrow> calculate_health_score F = calculate_health_score G)
   \<and> (mset F = mset G \<longrightarrow> calculate_health_score F = calculate_health_score G)"
proof -
  have p: "0 \<le> penalty (severity f)"
    using penalty_pos [of "severity f"] by simp
  have a: "calculate_health_score (f # F) \<le> calculate_health_score F"
    using p by (simp add: calculate_health_score_eq)
  have b: "calculate_health_score (F @ [f]) \<le> calculate_health_score F"
    using p by (simp add: calculate_health_score_eq)
  have c: "calculate_health_score F = calculate_health_score G" if "severities F = severities G"
    using that by (simp add: calculate_health_score_eq sum_mset_severities [symmetric])
  have d: "severities F = severities G" if "mset F = mset G"
  proof -
    have "image_mset severity (mset F) = image_mset severity (mset G)"
      using that by simp
    then show ?thesis by (simp add: severities_def)
  qed
  show ?thesis using a b c d by blast
qed

theorem health_score_monotone_order_invariant_witness:
  "calculate_health_score
     [\<lparr>file_path = ''a.py'', line_number = 1, smell_type = ''syntax_error'',
       description = ''File contains syntax errors'', severity = CRITICAL,
       suggested_fix = ''Fix syntax errors before proceeding'', confidence_score = 1\<rparr>,
      \<lparr>file_path = ''a.py'', line_number = 7, smell_type = ''long_line'',
       description = ''Line length: 121 characters (>120)'', severity = LOW,
       suggested_fix = ''Break line or refactor for readability'', confidence_score = 0.9\<rparr>]
   = calculate_health_score
     [\<lparr>file_path = ''a.py'', line_number = 7, smell_type = ''long_line'',
       description = ''Line length: 121 characters (>120)'', severity = LOW,
       suggested_fix = ''Break line or refactor for readability'', confidence_score = 0.9\<rparr>,
      \<lparr>file_path = ''a.py'', line_number = 1, smell_type = ''syntax_error'',
       description = ''File contains syntax errors'', severity = CRITICAL,
       suggested_fix = ''Fix syntax errors before proceeding'', confidence_score = 1\<rparr>]
   \<and> calculate_health_score
     [\<lparr>file_path = ''a.py'', line_number = 7, smell_type = ''long_line'',
       description = ''Line length: 121 characters (>120)'', severity = LOW,
       suggested_fix = ''Break line or refactor for readability'', confidence_score = 0.9\<rparr>,
      \<lparr>file_path = ''a.py'', line_number = 1, smell_type = ''syntax_error'',
       description = ''File contains syntax errors'', severity = CRITICAL,
       suggested_fix = ''Fix syntax errors before proceeding'', confidence_score = 1\<rparr>,
      \<lparr>file_path = ''a.py'', line_number = 7, smell_type = ''long_line'',
       description = ''Line length: 121 characters (>120)'', severity = LOW,
       suggested_fix = ''Break line or refactor for readability'', confidence_score = 0.9\<rparr>]
   \<le> calculate_health_score
     [\<lparr>file_path = ''a.py'', line_number = 1, smell_type = ''syntax_error'',
       description = ''File contains syntax errors'', severity = CRITICAL,
       suggested_fix = ''Fix syntax errors before proceeding'', confidence_score = 1\<rparr>,
      \<lparr>file_path = ''a.py'', line_number = 7, smell_type = ''long_line'',
       description = ''Line length: 121 characters (>120)'', severity = LOW,
       suggested_fix = ''Break line or refactor for readability'', confidence_score = 0.9\<rparr>]"
proof -
  let ?e = "\<lparr>file_path = ''a.py'', line_number = 1, smell_type = ''syntax_error'',
       description = ''File contains syntax errors'', severity = CRITICAL,
       suggested_fix = ''Fix syntax errors before proceeding'', confidence_score = 1\<rparr>"
  let ?l = "\<lparr>file_path = ''a.py'', line_number = 7, smell_type = ''long_line'',
       description = ''Line length: 121 characters (>120)'', severity = LOW,
       suggested_fix = ''Break line or refactor for readability'', confidence_score = 0.9\<rparr>"
  have m: "mset [?e, ?l] = mset [?l, ?e]"
    by (simp add: add_mset_commute)
  note t = health_score_monotone_order_invariant [of ?l "[?e, ?l]" "[?l, ?e]"]
  have a: "calculate_health_score [?e, ?l] = calculate_health_score [?l, ?e]"
    using t m by blast
  have b: "calculate_health_score (?l # [?e, ?l]) \<le> calculate_health_score [?e, ?l]"
    using t by blast
  show ?thesis using a b by (rule conjI)
qed


section \<open>Properties of the string operations\<close>








lemma str_nat_501: "str_nat 501 = ''501''"
  by (simp add: str_nat.simps digit_char_def)


section \<open>Properties of the textual analyzer\<close>

lemma foldl_append_step:
  "foldl (\<lambda>acc x. acc @ f x) acc xs = acc @ concat (map f xs)"
  by (induction xs arbitrary: acc) simp_all

lemma debt_comment_loop:
  "foldl (debt_comment_step fp) acc xs =
     acc @ concat (map (\<lambda>(i, line). if debt_marker_search line then [debt_comment_smell fp i line] else []) xs)"
  by (induction xs arbitrary: acc) (auto simp: debt_comment_step_def)

lemma long_line_loop:
  "foldl (long_line_step fp) acc xs =
     acc @ concat (map (\<lambda>(i, line). if length line > 120 then [long_line_smell fp i line] else []) xs)"
  by (induction xs arbitrary: acc) (auto simp: long_line_step_def)

lemma analyze_general_patterns_parts:
  "analyze_general_patterns fp content =
     (if length (str_split content newline) > 500
      then [large_file_smell fp (str_split content newline)] else []) @
     concat (map (\<lambda>(i, line). if debt_marker_search line then [debt_comment_smell fp i line] else [])
       (enumerate 1 (str_split content newline))) @
     concat (map (\<lambda>(i, line). if length line > 120 then [long_line_smell fp i line] else [])
       (enumerate 1 (str_split content newline)))"
  by (simp add: analyze_general_patterns_def Let_def debt_comment_loop long_line_loop)

lemma filter_loop_other:
  assumes "\<And>i l. \<not> T (mk i l)"
  shows "filter T (concat (map (\<lambda>(i, l). if c l then [mk i l] else []) xs)) = []"
  using assms by (induction xs) auto

lemma filter_loop_line:
  assumes "\<And>i l. line_number (mk i l) = i" and "\<And>i l. T (mk i l)"
  shows "filter (\<lambda>s. T s \<and> line_number s = k)
           (concat (map (\<lambda>(i, l). if c l then [mk i l] else []) (enumerate n ls)))
         = (if n \<le> k \<and> k < n + length ls \<and> c (ls ! (k - n)) then [mk k (ls ! (k - n))] else [])"
proof (induction ls arbitrary: n)
  case Nil
  show ?case by simp
next
  case (Cons x xs)
  show ?case
  proof (cases "k = n")
    case True
    then show ?thesis using Cons [of "Suc n"] assms by simp
  next
    case False
    then show ?thesis using Cons [of "Suc n"] assms
      by (auto simp: Suc_diff_le nth_Cons')
  qed
qed

lemma split_from_no_sep:
  "sep \<notin> set s \<Longrightarrow> split_from sep cur s = [cur @ s]"
  by (induction s arbitrary: cur) auto

lemma split_from_sep:
  "sep \<notin> set s \<Longrightarrow> split_from sep cur (s @ sep # rest) = (cur @ s) # split_from sep [] rest"
  by (induction s arbitrary: cur) auto

lemma length_split_from:
  "length (split_from sep cur s) = Suc (count_list s sep)"
  by (induction s arbitrary: cur) simp_all

lemma length_str_split: "length (str_split s sep) = Suc (count_list s sep)"
  by (simp add: str_split_def length_split_from)

lemma match_ignorecase_lower:
  "match_ignorecase pat s = startswith (lower s) (lower pat)"
  by (induction pat s rule: match_ignorecase.induct) (simp_all add: lower_def)

lemma search_ignorecase_lower:
  "search_ignorecase pat s = contains (lower s) (lower pat)"
  by (induction s) (simp_all add: match_ignorecase_lower, simp_all add: lower_def, (cases pat; simp)+)

lemma debt_marker_search_lower:
  "debt_marker_search line =
     (contains (lower line) ''todo'' \<or> contains (lower line) ''fixme'' \<or>
      contains (lower line) ''hack'' \<or> contains (lower line) ''xxx'')"
  by (simp add: debt_marker_search_def search_ignorecase_lower) (simp add: lower_def lower_char_def)


lemma count_list_replicate: "count_list (replicate n x) x = n"
  by (induction n) simp_all

text \<open>
  The \<open>large_file\<close> findings are exactly one, at line 1 with severity medium and
  confidence 0.8 and carrying the count, when \<open>content.split('\n')\<close> has more than 500
  pieces, and none otherwise. The number of pieces is one more than the number of
  newline characters.
\<close>

lemma large_file_boundary:
  "filter (\<lambda>s. smell_type s = ''large_file'') (analyze_general_patterns path content)
     = (if length (str_split content newline) > 500
        then [large_file_smell path (str_split content newline)] else [])
   \<and> length (str_split content newline) = Suc (count_list content newline)
   \<and> line_number (large_file_smell path lines) = 1
   \<and> severity (large_file_smell path lines) = MEDIUM
   \<and> confidence_score (large_file_smell path lines) = 0.8
   \<and> description (large_file_smell path lines) =
         ''File has '' @ str_nat (length lines) @ '' lines (>500)''
   \<and> (length (str_split content newline) = 501 \<longrightarrow>
        filter (\<lambda>s. smell_type s = ''large_file'') (analyze_general_patterns path content)
          = [large_file_smell path (str_split content newline)])
   \<and> (length (str_split content newline) = 500 \<longrightarrow>
        filter (\<lambda>s. smell_type s = ''large_file'') (analyze_general_patterns path content) = [])"
proof -
  have debt: "filter (\<lambda>s. smell_type s = ''large_file'')
      (concat (map (\<lambda>(i, line). if debt_marker_search line then [debt_comment_smell path i line] else [])
         (enumerate 1 (str_split content newline)))) = []"
    by (rule filter_loop_other) (simp add: debt_comment_smell_def)
  have long: "filter (\<lambda>s. smell_type s = ''large_file'')
      (concat (map (\<lambda>(i, line). if length line > 120 then [long_line_smell path i line] else [])
         (enumerate 1 (str_split content newline)))) = []"
    by (rule filter_loop_other) (simp add: long_line_smell_def)
  have main: "filter (\<lambda>s. smell_type s = ''large_file'') (analyze_general_patterns path content)
     = (if length (str_split content newline) > 500
        then [large_file_smell path (str_split content newline)] else [])"
    unfolding analyze_general_patterns_parts filter_append debt long
    by (simp add: large_file_smell_def)
  have fields: "line_number (large_file_smell path lines) = 1
   \<and> severity (large_file_smell path lines) = MEDIUM
   \<and> confidence_score (large_file_smell path lines) = 0.8
   \<and> description (large_file_smell path lines) =
         ''File has '' @ str_nat (length lines) @ '' lines (>500)''"
    by (simp add: large_file_smell_def)
  show ?thesis
    using main fields length_str_split [of content newline] by simp
qed

lemma count_list_terminated_lines:
  "x \<notin> set s \<Longrightarrow> count_list (concat (replicate n (s @ [x]))) x = n"
  by (induction n) (simp_all add: count_list_0_iff)

text \<open>
  Claim C5. A file of more than 500 lines gets exactly one \<open>large_file\<close> finding and
  a file of 500 lines none. The analyzer counts the pieces of \<open>content.split('\n')\<close>,
  and a newline that ends the last line leaves one more, empty, piece: a file of 500
  lines, each ended by a newline, has 501 pieces, and the analyzer emits \<open>large_file\<close>
  with the description \<open>File has 501 lines (>500)\<close>.
\<close>

theorem large_file_final_newline:
  "count_list (concat (replicate 500 (''x = 1'' @ [newline]))) newline = 500
   \<and> last (concat (replicate 500 (''x = 1'' @ [newline]))) = newline
   \<and> length (str_split (concat (replicate 500 (''x = 1'' @ [newline]))) newline) = 501
   \<and> filter (\<lambda>s. smell_type s = ''large_file'')
       (analyze_general_patterns \<lparr>path_str = ''m.py'', suffix = ''.py''\<rparr>
          (concat (replicate 500 (''x = 1'' @ [newline]))))
     = [large_file_smell \<lparr>path_str = ''m.py'', suffix = ''.py''\<rparr>
          (str_split (concat (replicate 500 (''x = 1'' @ [newline]))) newline)]
   \<and> description (large_file_smell \<lparr>path_str = ''m.py'', suffix = ''.py''\<rparr>
          (str_split (concat (replicate 500 (''x = 1'' @ [newline]))) newline))
     = ''File has 501 lines (>500)''"
proof -
  let ?C = "concat (replicate 500 (''x = 1'' @ [newline]))"
  let ?P = "\<lparr>path_str = ''m.py'', suffix = ''.py''\<rparr>"
  have n: "count_list ?C newline = 500"
    by (rule count_list_terminated_lines) (simp add: newline_def)
  have l: "length (str_split ?C newline) = 501"
    by (simp only: length_str_split n)
  have e: "last ?C = newline"
  proof -
    have "?C = concat (replicate 499 (''x = 1'' @ [newline])) @ ''x = 1'' @ [newline]"
      by (simp add: replicate_append_same [symmetric] del: replicate.simps)
         (simp add: numeral_eq_Suc replicate_append_same)
    then show ?thesis by (simp only: last_appendR last_snoc append_assoc [symmetric]) 
  qed
  have f: "filter (\<lambda>s. smell_type s = ''large_file'') (analyze_general_patterns ?P ?C)
     = [large_file_smell ?P (str_split ?C newline)]"
    using large_file_boundary [of ?P ?C] l by simp
  have d: "description (large_file_smell ?P (str_split ?C newline)) = ''File has 501 lines (>500)''"
  proof -
    have "description (large_file_smell ?P (str_split ?C newline))
        = ''File has '' @ str_nat (length (str_split ?C newline)) @ '' lines (>500)''"
      by (simp add: large_file_smell_def)
    also have "\<dots> = ''File has '' @ str_nat 501 @ '' lines (>500)''"
      by (simp only: l)
    also have "\<dots> = ''File has 501 lines (>500)''"
      by (simp add: str_nat_501)
    finally show ?thesis .
  qed
  show ?thesis using n e l f d by blast
qed

text \<open>
  Claim C6. For every line of the file, the findings of kind
  \<open>technical_debt_comment\<close> at that line are exactly one finding when the line matches
  the case-insensitive pattern \<open>TODO|FIXME|HACK|XXX\<close> (that is, when the lower-cased
  line contains one of the four markers) and none otherwise; the finding has severity
  low, confidence 0.6 and the stripped line in its description. The \<open>long_line\<close>
  findings at that line depend on the length of the line alone, so the two rules fire
  independently of each other.
\<close>

theorem debt_comment_per_line:
  assumes "i < length (str_split content newline)"
  shows "filter (\<lambda>s. smell_type s = ''technical_debt_comment'' \<and> line_number s = Suc i)
           (analyze_general_patterns path content)
         = (if debt_marker_search (str_split content newline ! i)
            then [debt_comment_smell path (Suc i) (str_split content newline ! i)] else [])
   \<and> filter (\<lambda>s. smell_type s = ''long_line'' \<and> line_number s = Suc i)
           (analyze_general_patterns path content)
         = (if length (str_split content newline ! i) > 120
            then [long_line_smell path (Suc i) (str_split content newline ! i)] else [])
   \<and> line_number (debt_comment_smell path (Suc i) line) = Suc i
   \<and> severity (debt_comment_smell path (Suc i) line) = LOW
   \<and> confidence_score (debt_comment_smell path (Suc i) line) = 0.6
   \<and> description (debt_comment_smell path (Suc i) line) = ''Technical debt marker: '' @ strip line
   \<and> debt_marker_search line =
        (contains (lower line) ''todo'' \<or> contains (lower line) ''fixme'' \<or>
         contains (lower line) ''hack'' \<or> contains (lower line) ''xxx'')"
proof -
  let ?ls = "str_split content newline"
  let ?D = "concat (map (\<lambda>(i, line). if debt_marker_search line then [debt_comment_smell path i line] else [])
         (enumerate 1 ?ls))"
  let ?L = "concat (map (\<lambda>(i, line). if length line > 120 then [long_line_smell path i line] else [])
         (enumerate 1 ?ls))"
  let ?F = "if length ?ls > 500 then [large_file_smell path ?ls] else []"
  have parts: "analyze_general_patterns path content = ?F @ ?D @ ?L"
    by (rule analyze_general_patterns_parts)
  have d1: "filter (\<lambda>s. smell_type s = ''technical_debt_comment'' \<and> line_number s = Suc i) ?F = []"
    by (simp add: large_file_smell_def)
  have d2: "filter (\<lambda>s. smell_type s = ''technical_debt_comment'' \<and> line_number s = Suc i) ?L = []"
    by (rule filter_loop_other) (simp add: long_line_smell_def)
  have d3: "filter (\<lambda>s. smell_type s = ''technical_debt_comment'' \<and> line_number s = Suc i) ?D
      = (if debt_marker_search (?ls ! i) then [debt_comment_smell path (Suc i) (?ls ! i)] else [])"
    using assms
      filter_loop_line [of "debt_comment_smell path" "\<lambda>s. smell_type s = ''technical_debt_comment''"
        "Suc i" debt_marker_search 1 ?ls]
    by (simp add: debt_comment_smell_def)
  have l1: "filter (\<lambda>s. smell_type s = ''long_line'' \<and> line_number s = Suc i) ?F = []"
    by (simp add: large_file_smell_def)
  have l2: "filter (\<lambda>s. smell_type s = ''long_line'' \<and> line_number s = Suc i) ?D = []"
    by (rule filter_loop_other) (simp add: debt_comment_smell_def)
  have l3: "filter (\<lambda>s. smell_type s = ''long_line'' \<and> line_number s = Suc i) ?L
      = (if length (?ls ! i) > 120 then [long_line_smell path (Suc i) (?ls ! i)] else [])"
    using assms
      filter_loop_line [of "long_line_smell path" "\<lambda>s. smell_type s = ''long_line''"
        "Suc i" "\<lambda>l. length l > 120" 1 ?ls]
    by (simp add: long_line_smell_def)
  have debt: "filter (\<lambda>s. smell_type s = ''technical_debt_comment'' \<and> line_number s = Suc i)
           (analyze_general_patterns path content)
         = (if debt_marker_search (?ls ! i) then [debt_comment_smell path (Suc i) (?ls ! i)] else [])"
    unfolding parts filter_append d1 d2 d3 by simp
  have long: "filter (\<lambda>s. smell_type s = ''long_line'' \<and> line_number s = Suc i)
           (analyze_general_patterns path content)
         = (if length (?ls ! i) > 120 then [long_line_smell path (Suc i) (?ls ! i)] else [])"
    unfolding parts filter_append l1 l2 l3 by simp
  have fields: "line_number (debt_comment_smell path (Suc i) line) = Suc i
   \<and> severity (debt_comment_smell path (Suc i) line) = LOW
   \<and> confidence_score (debt_comment_smell path (Suc i) line) = 0.6
   \<and> description (debt_comment_smell path (Suc i) line) = ''Technical debt marker: '' @ strip line"
    by (simp add: debt_comment_smell_def)
  show ?thesis
    using debt long fields debt_marker_search_lower [of line] by blast
qed


theorem debt_comment_per_line_witness:
  "filter (\<lambda>s. smell_type s = ''technical_debt_comment'' \<and> line_number s = Suc 1)
     (analyze_general_patterns \<lparr>path_str = ''src/app.js'', suffix = ''.js''\<rparr>
        (''x = 1'' @ [newline] @ ''  // ToDo: tidy up '' @ [newline] @ ''y = 2''))
   = [debt_comment_smell \<lparr>path_str = ''src/app.js'', suffix = ''.js''\<rparr> (Suc 1) ''  // ToDo: tidy up '']
   \<and> description (debt_comment_smell \<lparr>path_str = ''src/app.js'', suffix = ''.js''\<rparr> (Suc 1) ''  // ToDo: tidy up '')
       = ''Technical debt marker: // ToDo: tidy up''"
proof -
  let ?C = "''x = 1'' @ [newline] @ ''  // ToDo: tidy up '' @ [newline] @ ''y = 2''"
  let ?P = "\<lparr>path_str = ''src/app.js'', suffix = ''.js''\<rparr>"
  have ls: "str_split ?C newline = [''x = 1'', ''  // ToDo: tidy up '', ''y = 2'']"
    by (simp add: str_split_def newline_def)
  have len: "1 < length (str_split ?C newline)"
    unfolding ls by simp
  have nth: "str_split ?C newline ! 1 = ''  // ToDo: tidy up ''"
    unfolding ls by simp
  have m: "debt_marker_search ''  // ToDo: tidy up ''"
    by (simp add: debt_marker_search_def lower_char_def)
  have st: "strip ''  // ToDo: tidy up '' = ''// ToDo: tidy up''"
    by (simp add: strip_def isspace_def)
  note t = debt_comment_per_line [OF len, of ?P "''  // ToDo: tidy up ''"]
  have a: "filter (\<lambda>s. smell_type s = ''technical_debt_comment'' \<and> line_number s = Suc 1)
     (analyze_general_patterns ?P ?C) = [debt_comment_smell ?P (Suc 1) ''  // ToDo: tidy up '']"
    using t [THEN conjunct1] unfolding nth by (simp only: m if_True)
  have b: "description (debt_comment_smell ?P (Suc 1) ''  // ToDo: tidy up '')
       = ''Technical debt marker: // ToDo: tidy up''"
    using t [THEN conjunct2, THEN conjunct2, THEN conjunct2, THEN conjunct2, THEN conjunct2,
        THEN conjunct1]
    unfolding st by simp
  show ?thesis using a b by (rule conjI)
qed


section \<open>Properties of the structural analyzer\<close>

lemma subnode_below_child:
  assumes "subnode c m" and "c \<in> set (iter_child_nodes n)"
  shows "subnode n m"
  using assms
proof (induction rule: subnode.induct)
  case subnode_root
  then show ?case by (blast intro: subnode.intros)
next
  case (subnode_child n' c')
  then show ?case by (blast intro: subnode.intros)
qed

lemma subnode_cases_root:
  assumes "subnode n m"
  shows "m = n \<or> (\<exists>c \<in> set (iter_child_nodes n). subnode c m)"
  using assms
proof (induction rule: subnode.induct)
  case subnode_root
  show ?case by simp
next
  case (subnode_child n' c')
  then show ?case by (blast intro: subnode.intros)
qed

lemma subnode_unfold:
  "{m. subnode n m} = insert n {m. \<exists>c \<in> set (iter_child_nodes n). subnode c m}"
  using subnode_cases_root subnode_below_child subnode_root by blast

lemma set_walk_queue:
  "set (walk_queue todo) = {m. \<exists>r \<in> set todo. subnode r m}"
proof (induction todo rule: walk_queue.induct)
  case 1
  show ?case by simp
next
  case (2 n todo)
  have "set (walk_queue (n # todo)) = insert n {m. \<exists>r \<in> set (todo @ iter_child_nodes n). subnode r m}"
    using 2 by simp
  also have "\<dots> = {m. subnode n m} \<union> {m. \<exists>r \<in> set todo. subnode r m}"
    unfolding subnode_unfold [of n] by auto
  also have "\<dots> = {m. \<exists>r \<in> set (n # todo). subnode r m}"
    by auto
  finally show ?case .
qed

lemma set_walk: "set (walk tree) = {n. subnode tree n}"
  by (simp add: walk_def set_walk_queue subnode_unfold [symmetric])

lemma visit_append: "visit path smells n = smells @ visit path [] n"
  by (simp add: visit_def Let_def)

lemma foldl_visit:
  "foldl (visit path) acc ns = acc @ concat (map (visit path []) ns)"
proof (induction ns arbitrary: acc)
  case Nil
  show ?case by simp
next
  case (Cons n ns)
  show ?case
    using Cons [of "visit path acc n"] visit_append [of path acc n] by simp
qed

lemma filter_concat_map:
  "filter P (concat (map f xs)) = concat (map (\<lambda>x. filter P (f x)) xs)"
  by (induction xs) simp_all

lemma concat_map_if:
  "concat (map (\<lambda>x. if Q x then [g x] else []) xs) = map g (filter Q xs)"
  by (induction xs) simp_all


lemma visit_deep_nesting:
  "filter (\<lambda>s. smell_type s = ''deep_nesting'') (visit path [] n) =
     (if (is_If n \<or> is_For n \<or> is_While n) \<and> calculate_nesting_depth n 0 > 3
      then [deep_nesting_smell path n (calculate_nesting_depth n 0)] else [])"
  by (simp add: visit_def Let_def long_function_smell_def too_many_parameters_smell_def
      deep_nesting_smell_def del: calculate_nesting_depth.simps)


lemma parsed_deep_nesting:
  "filter (\<lambda>s. smell_type s = ''deep_nesting'') (foldl (visit path) [] (walk tree)) =
     map (\<lambda>n. deep_nesting_smell path n (calculate_nesting_depth n 0))
       (filter (\<lambda>n. (is_If n \<or> is_For n \<or> is_While n) \<and> calculate_nesting_depth n 0 > 3)
          (walk tree))"
  by (simp only: foldl_visit append_Nil filter_concat_map visit_deep_nesting concat_map_if)

lemma nesting_depth_chain_aux:
  "(\<exists>k. nest_chain n k \<and> calculate_nesting_depth n d = d + k) \<and>
   (\<forall>k. nest_chain n k \<longrightarrow> d + k \<le> calculate_nesting_depth n d)"
  and
  "m \<le> nesting_depth_loop cs d m \<and>
   (nesting_depth_loop cs d m = m \<or>
    (\<exists>c \<in> set cs. \<exists>k. is_nesting c \<and> nest_chain c k \<and> nesting_depth_loop cs d m = d + 1 + k)) \<and>
   (\<forall>c \<in> set cs. \<forall>k. is_nesting c \<and> nest_chain c k \<longrightarrow> d + 1 + k \<le> nesting_depth_loop cs d m)"
proof (induction n d and cs d m rule: calculate_nesting_depth_nesting_depth_loop.induct)
  case (1 n d)
  let ?r = "nesting_depth_loop (iter_child_nodes n) d d"
  have le: "d \<le> ?r" using 1 by blast
  have ex: "\<exists>k. nest_chain n k \<and> ?r = d + k"
  proof -
    from 1 consider "?r = d"
      | c k where "c \<in> set (iter_child_nodes n)" "is_nesting c" "nest_chain c k" "?r = d + 1 + k"
      by blast
    then show ?thesis
    proof cases
      case 1
      then show ?thesis using chain_end [of n] by auto
    next
      case 2
      then show ?thesis using chain_step [of c n k] by auto
    qed
  qed
  have ub: "d + k \<le> ?r" if "nest_chain n k" for k
    using that
  proof (cases rule: nest_chain.cases)
    case chain_end
    then show ?thesis using le by simp
  next
    case (chain_step c k')
    then show ?thesis using 1 by auto
  qed
  show ?case using ex ub by simp
next
  case (2 d m)
  show ?case by simp
next
  case (3 c rest d m)
  let ?m' = "if is_nesting c then max m (calculate_nesting_depth c (d + 1)) else m"
  let ?r = "nesting_depth_loop rest d ?m'"
  have r: "nesting_depth_loop (c # rest) d m = ?r" by simp
  have ih: "?m' \<le> ?r"
    "?r = ?m' \<or> (\<exists>c' \<in> set rest. \<exists>k. is_nesting c' \<and> nest_chain c' k \<and> ?r = d + 1 + k)"
    "\<forall>c' \<in> set rest. \<forall>k. is_nesting c' \<and> nest_chain c' k \<longrightarrow> d + 1 + k \<le> ?r"
    using 3(2) by blast+
  have a: "m \<le> ?r" using ih(1) by (simp split: if_splits)
  have b: "?r = m \<or> (\<exists>c' \<in> set (c # rest). \<exists>k. is_nesting c' \<and> nest_chain c' k \<and> ?r = d + 1 + k)"
  proof (cases "?r = ?m'")
    case False
    then show ?thesis using ih(2) by auto
  next
    case True
    show ?thesis
    proof (cases "is_nesting c")
      case False
      then show ?thesis using True by simp
    next
      case nest: True
      then obtain k where k: "nest_chain c k" "calculate_nesting_depth c (d + 1) = d + 1 + k"
        using 3(1) by auto
      show ?thesis
      proof (cases "m \<le> calculate_nesting_depth c (d + 1)")
        case True
        then have "?r = d + 1 + k" using \<open>?r = ?m'\<close> nest k by (simp add: max_def)
        then show ?thesis using nest k by auto
      next
        case False
        then have "?r = m" using \<open>?r = ?m'\<close> nest by (simp add: max_def)
        then show ?thesis by simp
      qed
    qed
  qed
  have c: "d + 1 + k \<le> ?r" if "c' \<in> set (c # rest)" "is_nesting c'" "nest_chain c' k" for c' k
  proof (cases "c' = c")
    case True
    then have "d + 1 + k \<le> calculate_nesting_depth c (d + 1)"
      using 3(1) that by auto
    also have "\<dots> \<le> ?m'" using True that by simp
    finally show ?thesis using ih(1) by simp
  next
    case False
    then show ?thesis using that ih(3) by auto
  qed
  show ?case unfolding r using a b c by blast
qed

lemma nesting_depth_is_longest_chain:
  "nest_chain n (calculate_nesting_depth n 0) \<and>
   (\<forall>k. nest_chain n k \<longrightarrow> k \<le> calculate_nesting_depth n 0)"
  using nesting_depth_chain_aux(1) [of n 0] by auto






text \<open>
  What the analyzer measures. For every \<open>If\<close>, \<open>For\<close> or \<open>While\<close> node the depth is
  the length of the longest chain of \<open>If\<close>/\<open>For\<close>/\<open>While\<close>/\<open>With\<close>/\<open>Try\<close> nodes
  below it in which each node is a direct child node of the one before, and the
  \<open>deep_nesting\<close> findings are exactly one per such node whose depth exceeds 3, with
  severity high, confidence 0.7 and the depth in the description.
\<close>

lemma nesting_depth_findings:
  assumes "ast_parse content = Parsed tree"
  shows "(\<exists>smells. analyze_python_file ast_parse path content = Some smells
      \<and> filter (\<lambda>s. smell_type s = ''deep_nesting'') smells
          = map (\<lambda>n. deep_nesting_smell path n (calculate_nesting_depth n 0))
              (filter (\<lambda>n. (is_If n \<or> is_For n \<or> is_While n) \<and> calculate_nesting_depth n 0 > 3)
                 (walk tree)))
   \<and> set (walk tree) = {n. subnode tree n}
   \<and> nest_chain n (calculate_nesting_depth n 0)
   \<and> (\<forall>k. nest_chain n k \<longrightarrow> k \<le> calculate_nesting_depth n 0)
   \<and> is_nesting n = (is_If n \<or> is_For n \<or> is_While n \<or> is_With n \<or> is_Try n)
   \<and> filter (\<lambda>s. smell_type s = ''deep_nesting'') (visit path [] n)
       = (if (is_If n \<or> is_For n \<or> is_While n) \<and> calculate_nesting_depth n 0 > 3
          then [deep_nesting_smell path n (calculate_nesting_depth n 0)] else [])
   \<and> line_number (deep_nesting_smell path n depth) = lineno n
   \<and> severity (deep_nesting_smell path n depth) = HIGH
   \<and> confidence_score (deep_nesting_smell path n depth) = 0.7
   \<and> description (deep_nesting_smell path n depth)
       = ''Code block nested '' @ str_nat depth @ '' levels deep''"
proof -
  let ?smells = "foldl (visit path) [] (walk tree)"
  have py: "analyze_python_file ast_parse path content = Some ?smells"
    using assms by (simp add: analyze_python_file_def)
  have eq: "filter (\<lambda>s. smell_type s = ''deep_nesting'') ?smells
          = map (\<lambda>n. deep_nesting_smell path n (calculate_nesting_depth n 0))
              (filter (\<lambda>n. (is_If n \<or> is_For n \<or> is_While n) \<and> calculate_nesting_depth n 0 > 3)
                 (walk tree))"
    by (rule parsed_deep_nesting)
  have fields: "line_number (deep_nesting_smell path n depth) = lineno n
   \<and> severity (deep_nesting_smell path n depth) = HIGH
   \<and> confidence_score (deep_nesting_smell path n depth) = 0.7
   \<and> description (deep_nesting_smell path n depth)
       = ''Code block nested '' @ str_nat depth @ '' levels deep''"
    by (simp add: deep_nesting_smell_def)
  show ?thesis
    using py eq set_walk [of tree] nesting_depth_is_longest_chain [of n]
      is_nesting_def [of n] visit_deep_nesting [of path n] fields
    by blast
qed

lemma nesting_depth_findings_example:
  "(\<exists>smells.
      analyze_python_file
        (\<lambda>content. Parsed (Other
           [IfNode 3 (Other [])
             [For 4 (Other []) (Other [])
               [With 5 [Other []]
                 [While 6 (Other [])
                   [IfNode 7 (Other []) [Other []] []] []]] []] []]))
        \<lparr>path_str = ''m.py'', suffix = ''.py''\<rparr> ''if a: ...'' = Some smells
      \<and> filter (\<lambda>s. smell_type s = ''deep_nesting'') smells
          = [deep_nesting_smell \<lparr>path_str = ''m.py'', suffix = ''.py''\<rparr>
               (IfNode 3 (Other [])
                 [For 4 (Other []) (Other [])
                   [With 5 [Other []]
                     [While 6 (Other [])
                       [IfNode 7 (Other []) [Other []] []] []]] []] []) 4])
   \<and> filter (\<lambda>s. smell_type s = ''deep_nesting'')
        (visit \<lparr>path_str = ''m.py'', suffix = ''.py''\<rparr> []
           (For 4 (Other []) (Other [])
              [With 5 [Other []]
                [While 6 (Other [])
                  [IfNode 7 (Other []) [Other []] []] []]] [])) = []"
proof -
  let ?W = "While 6 (Other []) [IfNode 7 (Other []) [Other []] []] []"
  let ?F = "For 4 (Other []) (Other []) [With 5 [Other []] [?W]] []"
  let ?I = "IfNode 3 (Other []) [?F] []"
  let ?P = "\<lparr>path_str = ''m.py'', suffix = ''.py''\<rparr>"
  have w: "walk (Other [?I]) =
     [Other [?I], ?I, Other [], ?F, Other [], Other [], With 5 [Other []] [?W], Other [], ?W,
      Other [], IfNode 7 (Other []) [Other []] [], Other [], Other []]"
    by (simp add: walk_def)
  have d: "calculate_nesting_depth ?I 0 = 4" "calculate_nesting_depth ?F 0 = 3"
    "calculate_nesting_depth ?W 0 = 1"
    "calculate_nesting_depth (IfNode 7 (Other []) [Other []] []) 0 = 0"
    by (simp_all add: is_nesting_def)
  note t = nesting_depth_findings [of "\<lambda>content. Parsed (Other [?I])" "''if a: ...''" "Other [?I]" ?P ?F]
  have m: "map (\<lambda>n. deep_nesting_smell ?P n (calculate_nesting_depth n 0))
              (filter (\<lambda>n. (is_If n \<or> is_For n \<or> is_While n) \<and> calculate_nesting_depth n 0 > 3)
                 (walk (Other [?I]))) = [deep_nesting_smell ?P ?I 4]"
    unfolding w by (simp del: calculate_nesting_depth.simps add: d)
  have a: "\<exists>smells. analyze_python_file (\<lambda>content. Parsed (Other [?I])) ?P ''if a: ...'' = Some smells
      \<and> filter (\<lambda>s. smell_type s = ''deep_nesting'') smells = [deep_nesting_smell ?P ?I 4]"
    using t [OF refl, THEN conjunct1] unfolding m .
  have b: "filter (\<lambda>s. smell_type s = ''deep_nesting'') (visit ?P [] ?F) = []"
    using t [OF refl] unfolding d by simp
  show ?thesis using a b by (rule conjI)
qed

text \<open>
  Claim C3. The depth below an \<open>if\<close>/\<open>for\<close>/\<open>while\<close> construct counts every nested
  \<open>if\<close>/\<open>for\<close>/\<open>while\<close>/\<open>with\<close>/\<open>try\<close> below it, and a depth above 3 gives a
  \<open>deep_nesting\<close> finding. In
  \<^verbatim>\<open>if a:\<close> / \<^verbatim>\<open>try: f()\<close> / \<^verbatim>\<open>except E:\<close> / \<^verbatim>\<open>if b:\<close> / \<^verbatim>\<open>if c:\<close> / \<^verbatim>\<open>if d: g()\<close>
  (each line nested in the one before, the three inner \<open>if\<close>s in the handler) the
  call \<open>g()\<close> sits 4 levels below the outer \<open>if\<close>, but the analyzer does not enter
  the \<open>except\<close> handler, measures depth 1 and emits nothing. With the same three
  \<open>if\<close>s in the body of the \<open>try\<close> instead, it measures 4 and emits the finding.
\<close>

theorem deep_nesting_except_handler:
  "spec_nesting_depth
     (IfNode 1 (Other [Other []])
        [Try 2 [Other [Other [Other [Other []]]]]
           [Other [Other [Other []],
              IfNode 5 (Other [Other []])
                [IfNode 6 (Other [Other []])
                   [IfNode 7 (Other [Other []]) [Other [Other [Other [Other []]]]] []] []] []]]
           [] []] []) = 4
   \<and> calculate_nesting_depth
     (IfNode 1 (Other [Other []])
        [Try 2 [Other [Other [Other [Other []]]]]
           [Other [Other [Other []],
              IfNode 5 (Other [Other []])
                [IfNode 6 (Other [Other []])
                   [IfNode 7 (Other [Other []]) [Other [Other [Other [Other []]]]] []] []] []]]
           [] []] []) 0 = 1
   \<and> analyze_python_file
       (\<lambda>content. Parsed (Other
          [IfNode 1 (Other [Other []])
            [Try 2 [Other [Other [Other [Other []]]]]
               [Other [Other [Other []],
                  IfNode 5 (Other [Other []])
                    [IfNode 6 (Other [Other []])
                       [IfNode 7 (Other [Other []]) [Other [Other [Other [Other []]]]] []] []] []]]
               [] []] []]))
       \<lparr>path_str = ''m.py'', suffix = ''.py''\<rparr> ''if a: ...'' = Some []
   \<and> spec_nesting_depth
     (IfNode 1 (Other [Other []])
        [Try 2
           [IfNode 3 (Other [Other []])
              [IfNode 4 (Other [Other []])
                 [IfNode 5 (Other [Other []]) [Other [Other [Other [Other []]]]] []] []] []]
           [Other [Other [Other []], Other []]]
           [] []] []) = 4
   \<and> calculate_nesting_depth
     (IfNode 1 (Other [Other []])
        [Try 2
           [IfNode 3 (Other [Other []])
              [IfNode 4 (Other [Other []])
                 [IfNode 5 (Other [Other []]) [Other [Other [Other [Other []]]]] []] []] []]
           [Other [Other [Other []], Other []]]
           [] []] []) 0 = 4
   \<and> analyze_python_file
       (\<lambda>content. Parsed (Other
          [IfNode 1 (Other [Other []])
            [Try 2
               [IfNode 3 (Other [Other []])
                  [IfNode 4 (Other [Other []])
                     [IfNode 5 (Other [Other []]) [Other [Other [Other [Other []]]]] []] []] []]
               [Other [Other [Other []], Other []]]
               [] []] []]))
       \<lparr>path_str = ''m.py'', suffix = ''.py''\<rparr> ''if a: ...''
     = Some [deep_nesting_smell \<lparr>path_str = ''m.py'', suffix = ''.py''\<rparr>
         (IfNode 1 (Other [Other []])
            [Try 2
               [IfNode 3 (Other [Other []])
                  [IfNode 4 (Other [Other []])
                     [IfNode 5 (Other [Other []]) [Other [Other [Other [Other []]]]] []] []] []]
               [Other [Other [Other []], Other []]]
               [] []] []) 4]"
  by code_simp


section \<open>Properties of the per-file analysis\<close>

lemma general_patterns_cases:
  assumes "s \<in> set (analyze_general_patterns path content)"
  shows "s = large_file_smell path (str_split content newline)
       \<or> (\<exists>i line. s = debt_comment_smell path i line)
       \<or> (\<exists>i line. s = long_line_smell path i line)"
  using assms unfolding analyze_general_patterns_parts
  by (auto split: if_splits)

lemma visit_cases:
  assumes "s \<in> set (visit path [] n)"
  shows "s = long_function_smell path n
       \<or> (\<exists>k. s = too_many_parameters_smell path n k)
       \<or> (\<exists>k. s = deep_nesting_smell path n k)"
  using assms by (auto simp: visit_def Let_def split: if_splits)

lemma python_file_cases:
  assumes "analyze_python_file ast_parse path content = Some smells" and "s \<in> set smells"
  shows "(\<exists>n. s = long_function_smell path n)
       \<or> (\<exists>n k. s = too_many_parameters_smell path n k)
       \<or> (\<exists>n k. s = deep_nesting_smell path n k)
       \<or> s = syntax_error_smell path"
proof (cases "ast_parse content")
  case (Parsed tree)
  then have "s \<in> set (concat (map (visit path []) (walk tree)))"
    using assms by (simp add: analyze_python_file_def foldl_visit)
  then obtain n where "s \<in> set (visit path [] n)" by auto
  then show ?thesis using visit_cases by blast
next
  case RaisesSyntaxError
  then show ?thesis using assms by (auto simp: analyze_python_file_def)
next
  case RaisesOther
  then show ?thesis using assms by (simp add: analyze_python_file_def)
qed

lemma general_patterns_kinds:
  assumes "s \<in> set (analyze_general_patterns path content)"
  shows "smell_type s \<in> set textual_kinds" and "smell_type s \<notin> set structural_kinds"
  using general_patterns_cases [OF assms]
  by (auto simp: textual_kinds_def structural_kinds_def large_file_smell_def
      debt_comment_smell_def long_line_smell_def)

lemma general_patterns_policy:
  assumes "s \<in> set (analyze_general_patterns path content)"
  shows "kind_policy (smell_type s) = Some (severity s, confidence_score s)"
  using general_patterns_cases [OF assms]
  by (auto simp: kind_policy_def large_file_smell_def debt_comment_smell_def long_line_smell_def)

lemma python_file_policy:
  assumes "analyze_python_file ast_parse path content = Some smells" and "s \<in> set smells"
  shows "kind_policy (smell_type s) = Some (severity s, confidence_score s)"
  using python_file_cases [OF assms]
  by (auto simp: kind_policy_def long_function_smell_def too_many_parameters_smell_def
      deep_nesting_smell_def syntax_error_smell_def)

lemma filter_all: "(\<And>x. x \<in> set xs \<Longrightarrow> P x) \<Longrightarrow> filter P xs = xs"
  by (induction xs) simp_all

lemma filter_none: "(\<And>x. x \<in> set xs \<Longrightarrow> \<not> P x) \<Longrightarrow> filter P xs = []"
  by (induction xs) simp_all

lemma general_patterns_one_marker_line:
  assumes "newline \<notin> set line" and "debt_marker_search line" and "length line \<le> 120"
  shows "analyze_general_patterns path line = [debt_comment_smell path 1 line]"
proof -
  have "str_split line newline = [line]"
    using assms(1) by (simp add: str_split_def split_from_no_sep)
  then show ?thesis
    using assms(2,3)
    by (simp add: analyze_general_patterns_def debt_comment_step_def long_line_step_def enumerate_eq_zip)
qed

text \<open>
  Claim C4. When \<open>ast.parse\<close> raises \<open>SyntaxError\<close> on a \<open>.py\<close> file, the structural
  analyzer yields exactly one finding, \<open>syntax_error\<close> at line 1 with severity
  critical and confidence 1.0; the file's findings are that one followed by the textual
  findings, so no other structural finding is emitted and the textual findings are all
  still there.
\<close>

theorem syntax_error_finding:
  assumes "ast_parse content = RaisesSyntaxError" and "suffix path = ''.py''"
  shows "analyze_python_file ast_parse path content = Some [syntax_error_smell path]
   \<and> analyze_file ast_parse path (Some content)
       = syntax_error_smell path # analyze_general_patterns path content
   \<and> filter (\<lambda>s. smell_type s \<in> set structural_kinds) (analyze_file ast_parse path (Some content))
       = [syntax_error_smell path]
   \<and> filter (\<lambda>s. smell_type s \<in> set textual_kinds) (analyze_file ast_parse path (Some content))
       = analyze_general_patterns path content
   \<and> smell_type (syntax_error_smell path) = ''syntax_error''
   \<and> line_number (syntax_error_smell path) = 1
   \<and> severity (syntax_error_smell path) = CRITICAL
   \<and> confidence_score (syntax_error_smell path) = 1.0"
proof -
  have py: "analyze_python_file ast_parse path content = Some [syntax_error_smell path]"
    using assms by (simp add: analyze_python_file_def)
  have whole: "analyze_file ast_parse path (Some content)
       = syntax_error_smell path # analyze_general_patterns path content"
    using assms py by (simp add: analyze_file_def)
  have g1: "filter (\<lambda>s. smell_type s \<in> set structural_kinds) (analyze_general_patterns path content) = []"
    by (rule filter_none) (rule general_patterns_kinds)
  have g2: "filter (\<lambda>s. smell_type s \<in> set textual_kinds) (analyze_general_patterns path content)
      = analyze_general_patterns path content"
    by (rule filter_all) (rule general_patterns_kinds)
  have k: "smell_type (syntax_error_smell path) \<in> set structural_kinds"
    "smell_type (syntax_error_smell path) \<notin> set textual_kinds"
    by (simp_all add: syntax_error_smell_def structural_kinds_def textual_kinds_def)
  have fields: "smell_type (syntax_error_smell path) = ''syntax_error''
   \<and> line_number (syntax_error_smell path) = 1
   \<and> severity (syntax_error_smell path) = CRITICAL
   \<and> confidence_score (syntax_error_smell path) = 1.0"
    by (simp add: syntax_error_smell_def)
  show ?thesis
    unfolding whole using py g1 g2 k fields by simp
qed

theorem syntax_error_finding_witness:
  "analyze_file (\<lambda>content. RaisesSyntaxError) \<lparr>path_str = ''m.py'', suffix = ''.py''\<rparr>
     (Some ''def f(:  # TODO'')
   = [syntax_error_smell \<lparr>path_str = ''m.py'', suffix = ''.py''\<rparr>,
      debt_comment_smell \<lparr>path_str = ''m.py'', suffix = ''.py''\<rparr> 1 ''def f(:  # TODO'']
   \<and> filter (\<lambda>s. smell_type s \<in> set structural_kinds)
       (analyze_file (\<lambda>content. RaisesSyntaxError) \<lparr>path_str = ''m.py'', suffix = ''.py''\<rparr>
          (Some ''def f(:  # TODO''))
     = [syntax_error_smell \<lparr>path_str = ''m.py'', suffix = ''.py''\<rparr>]"
proof -
  let ?P = "\<lparr>path_str = ''m.py'', suffix = ''.py''\<rparr>"
  have g: "analyze_general_patterns ?P ''def f(:  # TODO'' = [debt_comment_smell ?P 1 ''def f(:  # TODO'']"
    by (rule general_patterns_one_marker_line)
       (simp_all add: newline_def debt_marker_search_def lower_char_def)
  have sfx: "suffix ?P = ''.py''" by simp
  note t = syntax_error_finding [of "\<lambda>content. RaisesSyntaxError" "''def f(:  # TODO''" ?P, OF refl sfx]
  show ?thesis
    using t unfolding g by blast
qed

text \<open>
  Claim C10. For a file whose suffix is not \<open>.py\<close> the per-file analysis is the
  textual analysis alone, whatever the content and whatever the parser would say: every
  finding has one of the kinds \<open>large_file\<close>, \<open>technical_debt_comment\<close>,
  \<open>long_line\<close> and none has a structural kind.
\<close>

theorem non_python_textual_only:
  assumes "suffix path \<noteq> ''.py''"
  shows "analyze_file ast_parse path read
           = (case read of None \<Rightarrow> [] | Some content \<Rightarrow> analyze_general_patterns path content)
   \<and> (\<forall>s \<in> set (analyze_file ast_parse path read).
         smell_type s \<in> set textual_kinds \<and> smell_type s \<notin> set structural_kinds)"
proof -
  have eq: "analyze_file ast_parse path read
           = (case read of None \<Rightarrow> [] | Some content \<Rightarrow> analyze_general_patterns path content)"
    using assms by (simp add: analyze_file_def split: option.splits)
  show ?thesis
    unfolding eq using general_patterns_kinds by (cases read) auto
qed

theorem non_python_textual_only_witness:
  "analyze_file (\<lambda>content. RaisesSyntaxError) \<lparr>path_str = ''app.js'', suffix = ''.js''\<rparr>
     (Some ''function f( { // FIXME'')
   = [debt_comment_smell \<lparr>path_str = ''app.js'', suffix = ''.js''\<rparr> 1 ''function f( { // FIXME'']
   \<and> smell_type (debt_comment_smell \<lparr>path_str = ''app.js'', suffix = ''.js''\<rparr> 1
        ''function f( { // FIXME'') \<notin> set structural_kinds"
proof -
  let ?P = "\<lparr>path_str = ''app.js'', suffix = ''.js''\<rparr>"
  let ?C = "''function f( { // FIXME''"
  have g: "analyze_general_patterns ?P ?C = [debt_comment_smell ?P 1 ?C]"
    by (rule general_patterns_one_marker_line)
       (simp_all add: newline_def debt_marker_search_def lower_char_def)
  have sfx: "suffix ?P \<noteq> ''.py''" by simp
  note t = non_python_textual_only [of ?P "\<lambda>content. RaisesSyntaxError" "Some ?C", OF sfx]
  have a: "analyze_file (\<lambda>content. RaisesSyntaxError) ?P (Some ?C) = [debt_comment_smell ?P 1 ?C]"
    using t [THEN conjunct1] g by simp
  have b: "smell_type (debt_comment_smell ?P 1 ?C) \<notin> set structural_kinds"
    using t [THEN conjunct2] unfolding a by simp
  show ?thesis using a b by (rule conjI)
qed

text \<open>
  Claim C9. Every finding of the structural analyzer and of the textual analyzer carries
  the severity and the confidence that the table fixes for its kind (long_function
  medium/0.8, too_many_parameters high/0.9, deep_nesting high/0.7, large_file medium/0.8,
  technical_debt_comment low/0.6, long_line low/0.9, syntax_error critical/1.0); so two
  findings of the same kind, from any two inputs, agree in severity and confidence.
\<close>

theorem severity_confidence_by_kind:
  assumes "analyze_python_file ast_parse path content = Some smells"
    and "analyze_python_file ast_parse' path' content' = Some smells'"
    and "s \<in> set smells \<union> set (analyze_general_patterns gpath gcontent)"
    and "s' \<in> set smells' \<union> set (analyze_general_patterns gpath' gcontent')"
  shows "kind_policy (smell_type s) = Some (severity s, confidence_score s)
   \<and> (smell_type s' = smell_type s \<longrightarrow>
        severity s' = severity s \<and> confidence_score s' = confidence_score s)"
proof -
  have a: "kind_policy (smell_type s) = Some (severity s, confidence_score s)"
    using assms(1,3) python_file_policy general_patterns_policy by blast
  have b: "kind_policy (smell_type s') = Some (severity s', confidence_score s')"
    using assms(2,4) python_file_policy general_patterns_policy by blast
  show ?thesis using a b by auto
qed

theorem severity_confidence_by_kind_witness:
  "kind_policy (smell_type (syntax_error_smell \<lparr>path_str = ''a.py'', suffix = ''.py''\<rparr>))
     = Some (severity (syntax_error_smell \<lparr>path_str = ''a.py'', suffix = ''.py''\<rparr>),
             confidence_score (syntax_error_smell \<lparr>path_str = ''a.py'', suffix = ''.py''\<rparr>))
   \<and> severity (debt_comment_smell \<lparr>path_str = ''b.js'', suffix = ''.js''\<rparr> 1 ''// hack'')
     = severity (debt_comment_smell \<lparr>path_str = ''a.py'', suffix = ''.py''\<rparr> 1 ''x = 1  # TODO'')
   \<and> confidence_score (debt_comment_smell \<lparr>path_str = ''b.js'', suffix = ''.js''\<rparr> 1 ''// hack'')
     = confidence_score (debt_comment_smell \<lparr>path_str = ''a.py'', suffix = ''.py''\<rparr> 1 ''x = 1  # TODO'')"
proof -
  let ?A = "\<lparr>path_str = ''a.py'', suffix = ''.py''\<rparr>"
  let ?B = "\<lparr>path_str = ''b.js'', suffix = ''.js''\<rparr>"
  have pa: "analyze_python_file (\<lambda>content. RaisesSyntaxError) ?A ''x = (  # TODO''
      = Some [syntax_error_smell ?A]"
    by (simp add: analyze_python_file_def)
  have ga: "analyze_general_patterns ?A ''x = 1  # TODO'' = [debt_comment_smell ?A 1 ''x = 1  # TODO'']"
    by (rule general_patterns_one_marker_line)
       (simp_all add: newline_def debt_marker_search_def lower_char_def)
  have gb: "analyze_general_patterns ?B ''// hack'' = [debt_comment_smell ?B 1 ''// hack'']"
    by (rule general_patterns_one_marker_line)
       (simp_all add: newline_def debt_marker_search_def lower_char_def)
  have s1: "syntax_error_smell ?A
      \<in> set [syntax_error_smell ?A] \<union> set (analyze_general_patterns ?A ''x = 1  # TODO'')"
    by simp
  have s2: "debt_comment_smell ?A 1 ''x = 1  # TODO''
      \<in> set [syntax_error_smell ?A] \<union> set (analyze_general_patterns ?A ''x = 1  # TODO'')"
    unfolding ga by simp
  have s3: "debt_comment_smell ?B 1 ''// hack''
      \<in> set [syntax_error_smell ?A] \<union> set (analyze_general_patterns ?B ''// hack'')"
    unfolding gb by simp
  have ty: "smell_type (debt_comment_smell ?B 1 ''// hack'')
      = smell_type (debt_comment_smell ?A 1 ''x = 1  # TODO'')"
    by (simp add: debt_comment_smell_def)
  have a: "kind_policy (smell_type (syntax_error_smell ?A))
     = Some (severity (syntax_error_smell ?A), confidence_score (syntax_error_smell ?A))"
    using severity_confidence_by_kind [OF pa pa s1 s1] by blast
  have b: "severity (debt_comment_smell ?B 1 ''// hack'')
        = severity (debt_comment_smell ?A 1 ''x = 1  # TODO'')
      \<and> confidence_score (debt_comment_smell ?B 1 ''// hack'')
        = confidence_score (debt_comment_smell ?A 1 ''x = 1  # TODO'')"
    using severity_confidence_by_kind [OF pa pa s2 s3] ty by blast
  show ?thesis using a b by blast
qed


section \<open>Properties of the history trend analyzer\<close>

lemma str_split_log_line:
  assumes "well_formed c"
  shows "str_split (log_line c) (CHR ''|'') = [commit_id c, author c, date c, message c]"
proof -
  have "log_line c = commit_id c @ CHR ''|'' # (author c @ CHR ''|'' # (date c @ CHR ''|'' # message c))"
    by (simp add: log_line_def)
  then show ?thesis
    using assms
    by (simp add: str_split_def well_formed_def split_from_sep split_from_no_sep)
qed

lemma pipe_in_log_line: "CHR ''|'' \<in> set (log_line c)"
  by (simp add: log_line_def)

lemma add_date_log_line:
  "well_formed c \<Longrightarrow> add_date dates (log_line c) = insert (date c) dates"
  by (simp add: add_date_def pipe_in_log_line str_split_log_line)

lemma foldl_add_date:
  "\<forall>c \<in> set cs. well_formed c \<Longrightarrow>
     foldl add_date dates (map log_line cs) = dates \<union> date ` set cs"
  by (induction cs arbitrary: dates) (auto simp: add_date_log_line)

lemma count_debt_step_log_line:
  "well_formed c \<Longrightarrow>
     count_debt_step n (log_line c) = (if is_debt_message (message c) then n + 1 else n)"
  by (simp add: count_debt_step_def pipe_in_log_line str_split_log_line is_debt_message_def)

lemma foldl_count_debt_step:
  "\<forall>c \<in> set cs. well_formed c \<Longrightarrow>
     foldl count_debt_step n (map log_line cs)
       = n + length (filter (\<lambda>c. is_debt_message (message c)) cs)"
  by (induction cs arbitrary: n) (auto simp: count_debt_step_log_line)

text \<open>
  For 15 commits over 3 distinct dates whose fields do not contain the separator, the
  frequency is 5 and raises no metric, and the Technical Debt Commits metric is emitted,
  with the number of debt commits as its value and risk high, exactly when more than 3
  of the messages are debt messages: not with 2, and with 4.
\<close>

lemma commit_metrics_well_formed:
  assumes "\<forall>c \<in> set cs. well_formed c" and "length cs = 15" and "card (date ` set cs) = 3"
  shows "commit_metrics (map log_line cs) =
     (if length (filter (\<lambda>c. is_debt_message (message c)) cs) > 3
      then [\<lparr>metric_name = ''Technical Debt Commits'',
             current_value = of_nat (length (filter (\<lambda>c. is_debt_message (message c)) cs)),
             trend = ''concerning'',
             risk_level = HIGH,
             impact_description = ''High ratio of fix/refactor commits suggests accumulating debt''\<rparr>]
      else [])"
proof -
  have ne: "map log_line cs \<noteq> []" using assms(2) by auto
  have freq: "analyze_commit_frequency (map log_line cs) = 5"
    using assms ne by (simp add: analyze_commit_frequency_def foldl_add_date)
  have cnt: "count_debt_commits (map log_line cs)
      = length (filter (\<lambda>c. is_debt_message (message c)) cs)"
    using assms(1) by (simp add: count_debt_commits_def foldl_count_debt_step)
  have thr: "(of_nat k > (of_nat 15 :: rat) * 0.2) = (k > 3)" for k :: nat
  proof -
    have "(of_nat 15 :: rat) * 0.2 = of_nat 3" by simp
    then show ?thesis by (simp only: of_nat_less_iff)
  qed
  show ?thesis
    unfolding commit_metrics_def Let_def freq cnt
    using assms(2) thr by simp
qed

text \<open>
  Claim C7. With 15 commits over 3 distinct dates of which 2 are debt commits no metric
  is emitted, and with 4 the Technical Debt Commits metric of value 4 is: this is the
  lemma above, for commits without the separator in their fields. The analyzer takes
  the text after the last \<open>|\<close> of a log line for the message, so a message that contains
  the separator is cut: 15 commits over 3 dates, 4 of them with the message
  \<open>fix a|b\<close>, have 4 debt commits and frequency 5, but the analyzer counts no debt
  commit and emits no metric.
\<close>

theorem debt_commit_message_with_separator:
  "length (map log_line
     (replicate 4 \<lparr>commit_id = ''a1'', author = ''dev'', date = ''2024-05-01'', message = ''fix a|b''\<rparr> @
      replicate 3 \<lparr>commit_id = ''b2'', author = ''dev'', date = ''2024-05-01'', message = ''add x''\<rparr> @
      replicate 4 \<lparr>commit_id = ''c3'', author = ''dev'', date = ''2024-05-02'', message = ''add y''\<rparr> @
      replicate 4 \<lparr>commit_id = ''d4'', author = ''dev'', date = ''2024-05-03'', message = ''add z''\<rparr>)) = 15
   \<and> card (date ` set
     (replicate 4 \<lparr>commit_id = ''a1'', author = ''dev'', date = ''2024-05-01'', message = ''fix a|b''\<rparr> @
      replicate 3 \<lparr>commit_id = ''b2'', author = ''dev'', date = ''2024-05-01'', message = ''add x''\<rparr> @
      replicate 4 \<lparr>commit_id = ''c3'', author = ''dev'', date = ''2024-05-02'', message = ''add y''\<rparr> @
      replicate 4 \<lparr>commit_id = ''d4'', author = ''dev'', date = ''2024-05-03'', message = ''add z''\<rparr>)) = 3
   \<and> length (filter (\<lambda>c. is_debt_message (message c))
     (replicate 4 \<lparr>commit_id = ''a1'', author = ''dev'', date = ''2024-05-01'', message = ''fix a|b''\<rparr> @
      replicate 3 \<lparr>commit_id = ''b2'', author = ''dev'', date = ''2024-05-01'', message = ''add x''\<rparr> @
      replicate 4 \<lparr>commit_id = ''c3'', author = ''dev'', date = ''2024-05-02'', message = ''add y''\<rparr> @
      replicate 4 \<lparr>commit_id = ''d4'', author = ''dev'', date = ''2024-05-03'', message = ''add z''\<rparr>)) = 4
   \<and> analyze_commit_frequency (map log_line
     (replicate 4 \<lparr>commit_id = ''a1'', author = ''dev'', date = ''2024-05-01'', message = ''fix a|b''\<rparr> @
      replicate 3 \<lparr>commit_id = ''b2'', author = ''dev'', date = ''2024-05-01'', message = ''add x''\<rparr> @
      replicate 4 \<lparr>commit_id = ''c3'', author = ''dev'', date = ''2024-05-02'', message = ''add y''\<rparr> @
      replicate 4 \<lparr>commit_id = ''d4'', author = ''dev'', date = ''2024-05-03'', message = ''add z''\<rparr>)) = 5
   \<and> count_debt_commits (map log_line
     (replicate 4 \<lparr>commit_id = ''a1'', author = ''dev'', date = ''2024-05-01'', message = ''fix a|b''\<rparr> @
      replicate 3 \<lparr>commit_id = ''b2'', author = ''dev'', date = ''2024-05-01'', message = ''add x''\<rparr> @
      replicate 4 \<lparr>commit_id = ''c3'', author = ''dev'', date = ''2024-05-02'', message = ''add y''\<rparr> @
      replicate 4 \<lparr>commit_id = ''d4'', author = ''dev'', date = ''2024-05-03'', message = ''add z''\<rparr>)) = 0
   \<and> commit_metrics (map log_line
     (replicate 4 \<lparr>commit_id = ''a1'', author = ''dev'', date = ''2024-05-01'', message = ''fix a|b''\<rparr> @
      replicate 3 \<lparr>commit_id = ''b2'', author = ''dev'', date = ''2024-05-01'', message = ''add x''\<rparr> @
      replicate 4 \<lparr>commit_id = ''c3'', author = ''dev'', date = ''2024-05-02'', message = ''add y''\<rparr> @
      replicate 4 \<lparr>commit_id = ''d4'', author = ''dev'', date = ''2024-05-03'', message = ''add z''\<rparr>)) = []"
  by code_simp

end
